theory Spec2Isabelle
  imports Main "HOL-Library.Monad_Syntax"
begin

section \<open>Characters and the string primitives of the source\<close>

text \<open>
  The analysed text is a Python \<open>str\<close>. A character is modelled by an 8-bit \<open>char\<close>, read
  as a code point below 256; the character classes below are Python's own tables
  restricted to that range. \<open>is_space\<close> is \<open>str.isspace\<close>, which is also what
  \<open>strip\<close>, \<open>lstrip\<close> and the regular-expression class \<open>\s\<close> test; \<open>is_word\<close> is the class
  \<open>\w\<close> (alphanumeric or underscore).
\<close>

definition is_space :: "char \<Rightarrow> bool" where
  "is_space c =
     (let n = (of_char c :: nat)
      in (9 \<le> n \<and> n \<le> 13) \<or> (28 \<le> n \<and> n \<le> 32) \<or> n = 133 \<or> n = 160)"

definition is_ascii_letter :: "char \<Rightarrow> bool" where
  "is_ascii_letter c =
     (let n = (of_char c :: nat) in (65 \<le> n \<and> n \<le> 90) \<or> (97 \<le> n \<and> n \<le> 122))"

definition is_ascii_digit :: "char \<Rightarrow> bool" where
  "is_ascii_digit c = (let n = (of_char c :: nat) in 48 \<le> n \<and> n \<le> 57)"

definition is_latin_letter :: "char \<Rightarrow> bool" where
  "is_latin_letter c =
     (let n = (of_char c :: nat)
      in n = 170 \<or> n = 181 \<or> n = 186 \<or> (192 \<le> n \<and> n \<le> 214) \<or>
         (216 \<le> n \<and> n \<le> 246) \<or> 248 \<le> n)"

definition is_latin_number :: "char \<Rightarrow> bool" where
  "is_latin_number c =
     (let n = (of_char c :: nat)
      in n = 178 \<or> n = 179 \<or> n = 185 \<or> n = 188 \<or> n = 189 \<or> n = 190)"

definition is_word :: "char \<Rightarrow> bool" where
  "is_word c =
     (is_ascii_letter c \<or> is_ascii_digit c \<or> c = CHR ''_'' \<or>
      is_latin_letter c \<or> is_latin_number c)"

text \<open>The class \<open>[a-zA-Z_]\<close>.\<close>

definition is_name_start :: "char \<Rightarrow> bool" where
  "is_name_start c = (is_ascii_letter c \<or> c = CHR ''_'')"

text \<open>\<open>str.isidentifier\<close>: a first character of \<open>XID_Start\<close> or an underscore, then
  characters of \<open>XID_Continue\<close> (which adds the decimal digits and the middle dot).\<close>

definition is_id_start :: "char \<Rightarrow> bool" where
  "is_id_start c = (is_ascii_letter c \<or> c = CHR ''_'' \<or> is_latin_letter c)"

definition is_id_continue :: "char \<Rightarrow> bool" where
  "is_id_continue c = (is_id_start c \<or> is_ascii_digit c \<or> of_char c = (183 :: nat))"

definition isidentifier :: "string \<Rightarrow> bool" where
  "isidentifier s = (case s of [] \<Rightarrow> False | c # cs \<Rightarrow> is_id_start c \<and> list_all is_id_continue cs)"

definition newline :: char where
  "newline = CHR 0x0A"

definition is_quote :: "char \<Rightarrow> bool" where
  "is_quote c = (c = CHR 0x22 \<or> c = CHR 0x27)"

definition lstrip :: "string \<Rightarrow> string" where
  "lstrip s = dropWhile is_space s"

definition strip :: "string \<Rightarrow> string" where
  "strip s = rev (dropWhile is_space (rev (dropWhile is_space s)))"

text \<open>\<open>s.split(c)\<close> for a one-character separator: never empty, one more piece than
  there are separators.\<close>

fun split_on :: "char \<Rightarrow> string \<Rightarrow> string list" where
  "split_on c [] = [[]]"
| "split_on c (x # xs) =
     (if x = c then [] # split_on c xs
      else (case split_on c xs of [] \<Rightarrow> [[x]] | y # ys \<Rightarrow> (x # y) # ys))"

text \<open>\<open>'\n'.join(lines)\<close>.\<close>

fun join_nl :: "string list \<Rightarrow> string" where
  "join_nl [] = []"
| "join_nl [x] = x"
| "join_nl (x # y # ys) = x @ newline # join_nl (y # ys)"

text \<open>\<open>s.startswith(p)\<close>, and the rest of \<open>s\<close> after a literal prefix \<open>p\<close>.\<close>

fun startswith :: "string \<Rightarrow> string \<Rightarrow> bool" where
  "startswith [] s = True"
| "startswith (p # ps) [] = False"
| "startswith (p # ps) (c # cs) = (p = c \<and> startswith ps cs)"

definition lit :: "string \<Rightarrow> string \<Rightarrow> string option" where
  "lit p s = (if startswith p s then Some (drop (length p) s) else None)"

text \<open>\<open>sub in s\<close> and \<open>s.index(sub)\<close> (the latter only called where the former holds,
  or guarded by it).\<close>

fun contains :: "string \<Rightarrow> string \<Rightarrow> bool" where
  "contains sub [] = (sub = [])"
| "contains sub (c # cs) = (startswith sub (c # cs) \<or> contains sub cs)"

fun index_of :: "string \<Rightarrow> string \<Rightarrow> nat" where
  "index_of sub [] = 0"
| "index_of sub (c # cs) = (if startswith sub (c # cs) then 0 else Suc (index_of sub cs))"

text \<open>\<open>get_line_indent(line)\<close>: \<open>len(line) - len(line.lstrip())\<close>.\<close>

definition get_line_indent :: "string \<Rightarrow> nat" where
  "get_line_indent line = length line - length (lstrip line)"

text \<open>The test that opens both passes: \<open>not stripped or stripped.startswith('#')\<close>.\<close>

definition skipped :: "string \<Rightarrow> bool" where
  "skipped line = (strip line = [] \<or> startswith ''#'' (strip line))"

section \<open>The data model\<close>

text \<open>
  A fix descriptor is a dictionary with a \<open>'type'\<close> key; \<open>apply_smart_fixes\<close> dispatches on
  that key, so it is a tagged union. Each constructor carries the other keys the scanner
  stores, the first of them being \<open>'line'\<close>. \<open>OtherFix t\<close> is a descriptor whose \<open>'type'\<close>
  is a string \<open>t\<close> that none of the five branches tests for.
\<close>

datatype fix_desc =
    AddComment nat string
  | WrapWithCheck nat string string
  | DefineVariable nat string
  | WrapDivision nat string
  | SafeFileOpen nat string
  | OtherFix string

record diagnostic =
  err_type :: string
  err_message :: string
  err_line :: nat
  err_column :: nat
  err_prevention :: string
  err_fix :: "fix_desc option"

text \<open>The dictionary \<open>context\<close>; its keys \<open>functions\<close>, \<open>classes\<close> and \<open>imports\<close> are the
  fields \<open>function_names\<close>, \<open>class_names\<close> and \<open>import_lines\<close>.\<close>

record code_context =
  defined_vars :: "string set"
  imported_modules :: "string set"
  function_names :: "string set"
  class_names :: "string set"
  loop_vars :: "nat \<rightharpoonup> string set"
  function_params :: "string \<rightharpoonup> string list"
  import_lines :: "string \<rightharpoonup> nat"

datatype py_error = IndexError

section \<open>The rewrite engine: \<open>apply_smart_fixes\<close>\<close>

text \<open>\<open>re.match(r'^(def|class)\s+', s)\<close>.\<close>

definition re_block_header :: "string \<Rightarrow> bool" where
  "re_block_header s =
     (case lit ''def'' s of
        Some r \<Rightarrow> r \<noteq> [] \<and> is_space (hd r)
      | None \<Rightarrow> (case lit ''class'' s of Some r \<Rightarrow> r \<noteq> [] \<and> is_space (hd r) | None \<Rightarrow> False))"

text \<open>
  The loop of \<open>find_insertion_point\<close>, \<open>for i in range(error_line - 1, -1, -1)\<close>:
  \<open>walk_up ls cur k\<close> has the indices below \<open>k\<close> still to visit, highest first.
\<close>

fun walk_up :: "string list \<Rightarrow> nat \<Rightarrow> nat \<Rightarrow> nat" where
  "walk_up ls cur 0 = 0"
| "walk_up ls cur (Suc i) =
     (let line = ls ! i in
      if strip line = [] then walk_up ls cur i
      else if get_line_indent line < cur then Suc i
      else if get_line_indent line = cur \<and> re_block_header (strip line) then Suc i
      else walk_up ls cur i)"

definition find_insertion_point :: "string list \<Rightarrow> nat \<Rightarrow> py_error + nat" where
  "find_insertion_point ls error_line =
     (if error_line < length ls
      then Inr (walk_up ls (get_line_indent (ls ! error_line)) error_line)
      else Inl IndexError)"

text \<open>\<open>lines.insert(k, x)\<close> and \<open>lines[n:n+1] = new\<close>.\<close>

definition list_insert :: "nat \<Rightarrow> 'a \<Rightarrow> 'a list \<Rightarrow> 'a list" where
  "list_insert k x ls = take k ls @ x # drop k ls"

definition splice :: "nat \<Rightarrow> 'a list \<Rightarrow> 'a list \<Rightarrow> 'a list" where
  "splice n new ls = take n ls @ new @ drop (Suc n) ls"

definition indent_str :: "string \<Rightarrow> string" where
  "indent_str original_line = replicate (length original_line - length (lstrip original_line)) CHR '' ''"

definition null_check_block :: "string \<Rightarrow> string \<Rightarrow> string list" where
  "null_check_block var original_line =
     [indent_str original_line @ ''if '' @ var @ '' is not None:'',
      indent_str original_line @ ''    '' @ strip original_line,
      indent_str original_line @ ''else:'',
      indent_str original_line @ ''    print(f'Error: '' @ var @ '' is None')'']"

definition division_block :: "string \<Rightarrow> string list" where
  "division_block original_line =
     [indent_str original_line @ ''try:'',
      indent_str original_line @ ''    '' @ strip original_line,
      indent_str original_line @ ''except ZeroDivisionError:'',
      indent_str original_line @ ''    result = 0  # Handle division by zero'']"

definition file_open_block :: "string \<Rightarrow> string \<Rightarrow> string list" where
  "file_open_block filename original_line =
     [indent_str original_line @ ''if os.path.exists('' @ [CHR 0x27] @ filename @ [CHR 0x27] @ ''):'',
      indent_str original_line @ ''    '' @ strip original_line,
      indent_str original_line @ ''else:'',
      indent_str original_line @ ''    print(f'File not found: '' @ filename @ [CHR 0x27] @ '')'']"

text \<open>The mutable locals of \<open>apply_smart_fixes\<close>: the line buffer and the two sets.\<close>

record fix_state =
  st_lines :: "string list"
  st_added_imports :: "string set"
  st_defined_vars :: "string set"

text \<open>
  One iteration of the loop over the sorted diagnostics. A diagnostic without a fix is
  skipped; every read or write of \<open>lines[line_num]\<close> raises \<open>IndexError\<close> out of range;
  a descriptor of another type falls through the \<open>if\<close>/\<open>elif\<close> chain.
\<close>

definition apply_fix :: "code_context \<Rightarrow> diagnostic \<Rightarrow> fix_state \<Rightarrow> py_error + fix_state" where
  "apply_fix ctx error st =
     (case err_fix error of
        None \<Rightarrow> Inr st
      | Some fx \<Rightarrow>
          (let line_num = err_line error; ls = st_lines st in
           case fx of
             AddComment _ new_line \<Rightarrow>
               if line_num < length ls then Inr (st\<lparr>st_lines := ls[line_num := new_line]\<rparr>)
               else Inl IndexError
           | WrapWithCheck _ var _ \<Rightarrow>
               if line_num < length ls
               then Inr (st\<lparr>st_lines := splice line_num (null_check_block var (ls ! line_num)) ls\<rparr>)
               else Inl IndexError
           | DefineVariable _ var \<Rightarrow>
               if var \<notin> st_defined_vars st \<and> var \<notin> defined_vars ctx
               then (case find_insertion_point ls line_num of
                       Inl e \<Rightarrow> Inl e
                     | Inr insert_line \<Rightarrow>
                         Inr (st\<lparr>st_lines :=
                                  list_insert insert_line
                                    (replicate (get_line_indent (ls ! line_num)) CHR '' '' @ var @
                                     '' = None  # TODO: Initialize this variable'') ls,
                                st_defined_vars := insert var (st_defined_vars st)\<rparr>))
               else Inr st
           | WrapDivision _ _ \<Rightarrow>
               if line_num < length ls
               then Inr (st\<lparr>st_lines := splice line_num (division_block (ls ! line_num)) ls\<rparr>)
               else Inl IndexError
           | SafeFileOpen _ filename \<Rightarrow>
               (let st' = (if ''os'' \<notin> imported_modules ctx \<and> ''os'' \<notin> st_added_imports st
                           then st\<lparr>st_lines := list_insert 0 ''import os'' ls,
                                   st_added_imports := insert ''os'' (st_added_imports st)\<rparr>
                           else st);
                    ls' = st_lines st'
                in if line_num < length ls'
                   then Inr (st'\<lparr>st_lines :=
                                   splice line_num (file_open_block filename (ls' ! line_num)) ls'\<rparr>)
                   else Inl IndexError)
           | OtherFix _ \<Rightarrow> Inr st))"

fun apply_fixes_loop :: "code_context \<Rightarrow> diagnostic list \<Rightarrow> fix_state \<Rightarrow> py_error + fix_state" where
  "apply_fixes_loop ctx [] st = Inr st"
| "apply_fixes_loop ctx (e # es) st =
     (case apply_fix ctx e st of Inl x \<Rightarrow> Inl x | Inr st' \<Rightarrow> apply_fixes_loop ctx es st')"

text \<open>\<open>sorted(errors, key=lambda x: x['line'], reverse=True)\<close>: a stable sort, descending;
  diagnostics of one line keep the order the scanner gave them.\<close>

definition sort_by_line_desc :: "diagnostic list \<Rightarrow> diagnostic list" where
  "sort_by_line_desc errors = rev (sort_key err_line (rev errors))"

definition apply_smart_fixes :: "string \<Rightarrow> diagnostic list \<Rightarrow> code_context \<Rightarrow> py_error + string" where
  "apply_smart_fixes code errors ctx =
     (case apply_fixes_loop ctx (sort_by_line_desc errors)
             \<lparr>st_lines = split_on newline code, st_added_imports = {}, st_defined_vars = {}\<rparr> of
        Inl e \<Rightarrow> Inl e
      | Inr st \<Rightarrow> Inr (join_nl (st_lines st)))"

section \<open>The regular expressions of the source\<close>

text \<open>
  Each pattern of the source is a function of its own. The patterns are built from
  literals and greedy runs of one character class, each followed by something that
  no character of the class can start, so the longest run is the only one a match
  can use and backtracking into a run never succeeds; the places where this is not
  so (\<open>\s+(.+)\<close>, the lazy \<open>(.*?)\<close>) are written out. \<open>re.match\<close> anchors at the start;
  \<open>re.search\<close> tries the start positions from left to right. The dot does not match
  the newline.
\<close>

text \<open>\<open>\s+\<close>: the rest of the string after one or more white-space characters.\<close>

definition spaces1 :: "string \<Rightarrow> string option" where
  "spaces1 s = (if s \<noteq> [] \<and> is_space (hd s) then Some (dropWhile is_space s) else None)"

text \<open>\<open>(\w+)\<close>: the group and the rest of the string.\<close>

definition word1 :: "string \<Rightarrow> (string \<times> string) option" where
  "word1 s =
     (if s \<noteq> [] \<and> is_word (hd s) then Some (takeWhile is_word s, dropWhile is_word s)
      else None)"

text \<open>\<open>^import\s+(\w+)\<close>.\<close>

definition re_import :: "string \<Rightarrow> string option" where
  "re_import s = do {
     r \<leftarrow> lit ''import'' s;
     r \<leftarrow> spaces1 r;
     (module, _) \<leftarrow> word1 r;
     Some module }"

text \<open>
  \<open>\s+(.+)\<close> at the end of a pattern. The white space is followed by the dot, which
  matches white space too: when nothing follows the run, the run gives back its last
  character that is not a newline (and not its first character, which \<open>\s+\<close> needs).
\<close>

definition spaces_then_rest :: "string \<Rightarrow> string option" where
  "spaces_then_rest s =
     (if s = [] \<or> \<not> is_space (hd s) then None
      else if dropWhile is_space s \<noteq> []
      then Some (takeWhile (\<lambda>c. c \<noteq> newline) (dropWhile is_space s))
      else (case dropWhile (\<lambda>c. c = newline) (rev (tl s)) of
              [] \<Rightarrow> None
            | c # _ \<Rightarrow> Some [c]))"

text \<open>\<open>^from\s+(\w+)\s+import\s+(.+)\<close>.\<close>

definition re_from_import :: "string \<Rightarrow> (string \<times> string) option" where
  "re_from_import s = do {
     r \<leftarrow> lit ''from'' s;
     r \<leftarrow> spaces1 r;
     (module, r) \<leftarrow> word1 r;
     r \<leftarrow> spaces1 r;
     r \<leftarrow> lit ''import'' r;
     names \<leftarrow> spaces_then_rest r;
     Some (module, names) }"

text \<open>The lazy \<open>(.*?)\<close> followed by a literal: the text up to the first place where the
  literal starts, with no newline in it.\<close>

fun lazy_until :: "string \<Rightarrow> string \<Rightarrow> string option" where
  "lazy_until stop [] = (if stop = [] then Some [] else None)"
| "lazy_until stop (c # cs) =
     (if startswith stop (c # cs) then Some []
      else if c = newline then None
      else map_option ((#) c) (lazy_until stop cs))"

text \<open>\<open>^def\s+(\w+)\s*\((.*?)\):\<close>.\<close>

definition re_def :: "string \<Rightarrow> (string \<times> string) option" where
  "re_def s = do {
     r \<leftarrow> lit ''def'' s;
     r \<leftarrow> spaces1 r;
     (func_name, r) \<leftarrow> word1 r;
     r \<leftarrow> lit ''('' (dropWhile is_space r);
     params \<leftarrow> lazy_until ''):'' r;
     Some (func_name, params) }"

text \<open>\<open>^class\s+(\w+)\<close>.\<close>

definition re_class :: "string \<Rightarrow> string option" where
  "re_class s = do {
     r \<leftarrow> lit ''class'' s;
     r \<leftarrow> spaces1 r;
     (class_name, _) \<leftarrow> word1 r;
     Some class_name }"

text \<open>\<open>^for\s+(\w+)\s+in\s+\<close>.\<close>

definition re_for :: "string \<Rightarrow> string option" where
  "re_for s = do {
     r \<leftarrow> lit ''for'' s;
     r \<leftarrow> spaces1 r;
     (loop_var, r) \<leftarrow> word1 r;
     r \<leftarrow> spaces1 r;
     r \<leftarrow> lit ''in'' r;
     _ \<leftarrow> spaces1 r;
     Some loop_var }"

text \<open>\<open>^(\w+)\s*=\<close>.\<close>

definition re_assign :: "string \<Rightarrow> string option" where
  "re_assign s = do {
     (var_name, r) \<leftarrow> word1 s;
     _ \<leftarrow> lit ''='' (dropWhile is_space r);
     Some var_name }"

text \<open>\<open>^([^=]+)=\<close>.\<close>

definition re_multi_assign :: "string \<Rightarrow> string option" where
  "re_multi_assign s =
     (if takeWhile (\<lambda>c. c \<noteq> CHR ''='') s \<noteq> [] \<and> dropWhile (\<lambda>c. c \<noteq> CHR ''='') s \<noteq> []
      then Some (takeWhile (\<lambda>c. c \<noteq> CHR ''='') s) else None)"

section \<open>The context builder: \<open>analyze_code_context\<close>\<close>

definition empty_context :: code_context where
  "empty_context =
     \<lparr>defined_vars = {}, imported_modules = {}, function_names = {}, class_names = {},
      loop_vars = Map.empty, function_params = Map.empty, import_lines = Map.empty\<rparr>"

definition ctx_import :: "nat \<Rightarrow> string \<Rightarrow> code_context \<Rightarrow> code_context" where
  "ctx_import i stripped c =
     (case re_import stripped of
        None \<Rightarrow> c
      | Some module \<Rightarrow>
          c\<lparr>imported_modules := insert module (imported_modules c),
            import_lines := (import_lines c)(module \<mapsto> i)\<rparr>)"

definition ctx_from_import :: "string \<Rightarrow> code_context \<Rightarrow> code_context" where
  "ctx_from_import stripped c =
     (case re_from_import stripped of
        None \<Rightarrow> c
      | Some (module, names) \<Rightarrow>
          c\<lparr>imported_modules := insert module (imported_modules c),
            defined_vars := defined_vars c \<union> set (map strip (split_on CHR '','' names))\<rparr>)"

text \<open>
  The parameter loop of the function-definition branch. \<open>raw_param\<close> is the parameter
  after \<open>strip\<close> and the removal of a default value; \<open>parse_params\<close> keeps those that
  pass \<open>if param and param != 'self'\<close>.
\<close>

definition raw_param :: "string \<Rightarrow> string" where
  "raw_param param =
     (if CHR ''='' \<in> set (strip param) then strip (hd (split_on CHR ''='' (strip param)))
      else strip param)"

definition raw_params :: "string \<Rightarrow> string list" where
  "raw_params params = map raw_param (split_on CHR '','' params)"

definition parse_params :: "string \<Rightarrow> string list" where
  "parse_params params = filter (\<lambda>param. param \<noteq> [] \<and> param \<noteq> ''self'') (raw_params params)"

definition ctx_def :: "string \<Rightarrow> code_context \<Rightarrow> code_context" where
  "ctx_def stripped c =
     (case re_def stripped of
        None \<Rightarrow> c
      | Some (func_name, params) \<Rightarrow>
          (if params \<noteq> []
           then c\<lparr>function_names := insert func_name (function_names c),
                  defined_vars := insert func_name (defined_vars c) \<union> set (parse_params params),
                  function_params := (function_params c)(func_name \<mapsto> parse_params params)\<rparr>
           else c\<lparr>function_names := insert func_name (function_names c),
                  defined_vars := insert func_name (defined_vars c)\<rparr>))"

definition ctx_class :: "string \<Rightarrow> code_context \<Rightarrow> code_context" where
  "ctx_class stripped c =
     (case re_class stripped of
        None \<Rightarrow> c
      | Some class_name \<Rightarrow>
          c\<lparr>class_names := insert class_name (class_names c),
            defined_vars := insert class_name (defined_vars c)\<rparr>)"

definition ctx_for :: "nat \<Rightarrow> string \<Rightarrow> code_context \<Rightarrow> code_context" where
  "ctx_for i stripped c =
     (case re_for stripped of
        None \<Rightarrow> c
      | Some loop_var \<Rightarrow>
          c\<lparr>defined_vars := insert loop_var (defined_vars c),
            loop_vars := (loop_vars c)
              (i \<mapsto> insert loop_var (case loop_vars c i of None \<Rightarrow> {} | Some vs \<Rightarrow> vs))\<rparr>)"

definition ctx_assign :: "string \<Rightarrow> code_context \<Rightarrow> code_context" where
  "ctx_assign stripped c =
     (case re_assign stripped of
        None \<Rightarrow> c
      | Some var_name \<Rightarrow> c\<lparr>defined_vars := insert var_name (defined_vars c)\<rparr>)"

definition unpack_targets :: "string \<Rightarrow> string list" where
  "unpack_targets left_side =
     filter (\<lambda>var. var \<noteq> [] \<and> isidentifier var) (map strip (split_on CHR '','' left_side))"

definition ctx_multi_assign :: "string \<Rightarrow> code_context \<Rightarrow> code_context" where
  "ctx_multi_assign stripped c =
     (case re_multi_assign stripped of
        None \<Rightarrow> c
      | Some left_side \<Rightarrow>
          (if CHR '','' \<in> set left_side
           then c\<lparr>defined_vars := defined_vars c \<union> set (unpack_targets left_side)\<rparr>
           else c))"

text \<open>
  The body of the loop over \<open>enumerate(lines)\<close>: the recognisers in the order of the
  source, each on the stripped line. The locals \<open>current_indent\<close>, \<open>indent\<close> and
  \<open>in_function\<close> are written and never read; they are left out.
\<close>

definition analyze_line :: "nat \<Rightarrow> string \<Rightarrow> code_context \<Rightarrow> code_context" where
  "analyze_line i line c =
     (if skipped line then c
      else ctx_multi_assign (strip line)
            (ctx_assign (strip line)
              (ctx_for i (strip line)
                (ctx_class (strip line)
                  (ctx_def (strip line)
                    (ctx_from_import (strip line)
                      (ctx_import i (strip line) c)))))))"

fun analyze_lines :: "nat \<Rightarrow> string list \<Rightarrow> code_context \<Rightarrow> code_context" where
  "analyze_lines i [] c = c"
| "analyze_lines i (line # rest) c = analyze_lines (Suc i) rest (analyze_line i line c)"

definition analyze_code_context :: "string \<Rightarrow> code_context" where
  "analyze_code_context code = analyze_lines 0 (split_on newline code) empty_context"

section \<open>The diagnostic scanner: \<open>detect_errors_with_context\<close>\<close>

definition PYTHON_BUILTINS :: "string set" where
  "PYTHON_BUILTINS = set
     [''True'', ''False'', ''None'', ''print'', ''len'', ''str'', ''int'', ''float'', ''bool'',
      ''list'', ''dict'', ''set'', ''tuple'', ''range'', ''sum'', ''min'', ''max'', ''abs'',
      ''round'', ''sorted'', ''reversed'', ''enumerate'', ''zip'', ''map'', ''filter'',
      ''any'', ''all'', ''open'', ''input'', ''type'', ''isinstance'', ''hasattr'',
      ''getattr'', ''setattr'', ''delattr'', ''callable'', ''iter'', ''next'',
      ''Exception'', ''ValueError'', ''TypeError'', ''KeyError'', ''IndexError'']"

definition known_modules :: "string list" where
  "known_modules =
     [''pandas'', ''numpy'', ''requests'', ''matplotlib'', ''seaborn'', ''scipy'', ''sklearn'']"

text \<open>\<open>any(f"{name}{suffix}" in prev_line for prev_line in lines[:i])\<close>.\<close>

definition set_earlier :: "string list \<Rightarrow> nat \<Rightarrow> string \<Rightarrow> bool" where
  "set_earlier lines i needle = list_ex (contains needle) (take i lines)"

subsection \<open>Import errors\<close>

text \<open>\<open>^(\s*)import\s+(\w+)\<close>, on the line as it is: the groups \<open>indent\<close> and \<open>module\<close>.\<close>

definition re_line_import :: "string \<Rightarrow> (string \<times> string) option" where
  "re_line_import line = do {
     r \<leftarrow> lit ''import'' (dropWhile is_space line);
     r \<leftarrow> spaces1 r;
     (module, _) \<leftarrow> word1 r;
     Some (takeWhile is_space line, module) }"

definition import_errors :: "nat \<Rightarrow> string \<Rightarrow> diagnostic list" where
  "import_errors i line =
     (case re_line_import line of
        None \<Rightarrow> []
      | Some (indent, module) \<Rightarrow>
          (if module \<in> set known_modules
           then [\<lparr>err_type = ''ModuleNotFoundError'',
                  err_message = ''Module '' @ [CHR 0x27] @ module @ [CHR 0x27] @ '' might not be installed'',
                  err_line = i,
                  err_column = length indent,
                  err_prevention = ''Use 'pip install '' @ module @ [CHR 0x27],
                  err_fix = Some (AddComment i (line @ ''  # Run: pip install '' @ module))\<rparr>]
           else []))"

subsection \<open>None attribute access\<close>

text \<open>\<open>(\w+)\.(\w+)\<close> at the start of a string, and searched for.\<close>

definition attr_at :: "string \<Rightarrow> (string \<times> string) option" where
  "attr_at s = do {
     (var, r) \<leftarrow> word1 s;
     r \<leftarrow> lit ''.'' r;
     (attr, _) \<leftarrow> word1 r;
     Some (var, attr) }"

fun re_attr_search :: "string \<Rightarrow> (string \<times> string) option" where
  "re_attr_search [] = None"
| "re_attr_search (c # cs) =
     (case attr_at (c # cs) of Some m \<Rightarrow> Some m | None \<Rightarrow> re_attr_search cs)"

definition none_attr_errors :: "string list \<Rightarrow> nat \<Rightarrow> string \<Rightarrow> diagnostic list" where
  "none_attr_errors lines i line =
     (case re_attr_search line of
        None \<Rightarrow> []
      | Some (var, attr) \<Rightarrow>
          (if set_earlier lines i (var @ '' = None'')
           then [\<lparr>err_type = ''AttributeError'',
                  err_message = [CHR 0x27] @ var @ [CHR 0x27] @ '' might be None'',
                  err_line = i,
                  err_column = index_of var line,
                  err_prevention = ''Check if object is None first'',
                  err_fix = Some (WrapWithCheck i var line)\<rparr>]
           else []))"

subsection \<open>Undefined variables\<close>

text \<open>
  \<open>re.findall(r'\b([a-zA-Z_]\w*)\b', line)\<close>. A match starts where the character before
  is no word character and the character itself is in \<open>[a-zA-Z_]\<close>, and takes the whole
  run of word characters; inside a run no match starts. The flag says whether the
  character before is a word character.
\<close>

fun find_names :: "bool \<Rightarrow> string \<Rightarrow> string list" where
  "find_names prev [] = []"
| "find_names prev (c # cs) =
     (if is_word c
      then (if \<not> prev \<and> is_name_start c then (c # takeWhile is_word cs) # find_names True cs
            else find_names True cs)
      else find_names False cs)"

definition var_refs :: "string \<Rightarrow> string list" where
  "var_refs line = find_names False line"

text \<open>
  The patterns built from the token. \<open>var\<close> is one of \<open>var_refs line\<close>: not empty, made of
  word characters, so it stands for itself in the pattern and no white space run can
  reach into it.
\<close>

text \<open>\<open>\b\<close> between a character and the rest of the string.\<close>

definition word_boundary :: "char \<Rightarrow> string \<Rightarrow> bool" where
  "word_boundary prev rest = (is_word prev \<noteq> (rest \<noteq> [] \<and> is_word (hd rest)))"

text \<open>\<open>re.search(rf'\.{var}\b', line)\<close>.\<close>

fun re_method_ref :: "string \<Rightarrow> string \<Rightarrow> bool" where
  "re_method_ref var [] = False"
| "re_method_ref var (c # cs) =
     ((c = CHR ''.'' \<and> startswith var cs \<and> word_boundary (last (c # var)) (drop (length var) cs))
      \<or> re_method_ref var cs)"

text \<open>\<open>re.match(rf'^(def|class)\s+{var}', stripped)\<close>.\<close>

definition re_header_of :: "string \<Rightarrow> string \<Rightarrow> bool" where
  "re_header_of var s =
     (case (case lit ''def'' s of Some r \<Rightarrow> Some r | None \<Rightarrow> lit ''class'' s) of
        None \<Rightarrow> False
      | Some r \<Rightarrow> (case spaces1 r of None \<Rightarrow> False | Some r' \<Rightarrow> startswith var r'))"

text \<open>\<open>re.match(rf'^{var}\s*=', stripped)\<close>.\<close>

definition re_assigns :: "string \<Rightarrow> string \<Rightarrow> bool" where
  "re_assigns var s =
     (case lit var s of None \<Rightarrow> False | Some r \<Rightarrow> startswith ''='' (dropWhile is_space r))"

text \<open>\<open>re.match(rf'^for\s+{var}\s+in', stripped)\<close>.\<close>

definition re_for_binds :: "string \<Rightarrow> string \<Rightarrow> bool" where
  "re_for_binds var s =
     (case do { r \<leftarrow> lit ''for'' s; r \<leftarrow> spaces1 r; r \<leftarrow> lit var r; spaces1 r } of
        None \<Rightarrow> False
      | Some r \<Rightarrow> startswith ''in'' r)"

text \<open>
  \<open>re.search(rf'["\'].*{var}.*["\']', line)\<close>: a quote, then on the same line the token
  and, at or after its end, another quote.
\<close>

definition quote_ahead :: "string \<Rightarrow> bool" where
  "quote_ahead s = list_ex is_quote (takeWhile (\<lambda>c. c \<noteq> newline) s)"

fun var_then_quote :: "string \<Rightarrow> string \<Rightarrow> bool" where
  "var_then_quote var [] = False"
| "var_then_quote var (c # cs) =
     ((startswith var (c # cs) \<and> quote_ahead (drop (length var) (c # cs)))
      \<or> (c \<noteq> newline \<and> var_then_quote var cs))"

fun re_in_quotes :: "string \<Rightarrow> string \<Rightarrow> bool" where
  "re_in_quotes var [] = False"
| "re_in_quotes var (c # cs) = ((is_quote c \<and> var_then_quote var cs) \<or> re_in_quotes var cs)"

text \<open>The five \<open>continue\<close> tests of the loop over \<open>var_refs\<close>, in order.\<close>

definition known_name :: "code_context \<Rightarrow> string \<Rightarrow> bool" where
  "known_name ctx var =
     (var \<in> defined_vars ctx \<or> var \<in> imported_modules ctx \<or> var \<in> function_names ctx \<or>
      var \<in> class_names ctx \<or> var \<in> PYTHON_BUILTINS)"

definition excluded :: "code_context \<Rightarrow> string \<Rightarrow> string \<Rightarrow> bool" where
  "excluded ctx line var =
     (known_name ctx var \<or>
      re_method_ref var line \<or>
      re_header_of var (strip line) \<or>
      (re_assigns var (strip line) \<or> re_for_binds var (strip line)) \<or>
      re_in_quotes var line)"

text \<open>The loop reports the first token that reaches its end, then breaks.\<close>

definition first_undefined :: "code_context \<Rightarrow> string \<Rightarrow> string option" where
  "first_undefined ctx line = find (\<lambda>var. \<not> excluded ctx line var) (var_refs line)"

definition name_error :: "nat \<Rightarrow> string \<Rightarrow> string \<Rightarrow> diagnostic" where
  "name_error i line var =
     \<lparr>err_type = ''NameError'',
      err_message = [CHR 0x27] @ var @ [CHR 0x27] @ '' is not defined'',
      err_line = i,
      err_column = (if contains var line then index_of var line else 0),
      err_prevention = ''Define variable before use'',
      err_fix = Some (DefineVariable i var)\<rparr>"

definition undefined_errors :: "code_context \<Rightarrow> nat \<Rightarrow> string \<Rightarrow> diagnostic list" where
  "undefined_errors ctx i line =
     (case first_undefined ctx line of None \<Rightarrow> [] | Some var \<Rightarrow> [name_error i line var])"

subsection \<open>Division by zero\<close>

text \<open>\<open>re.search(r'/\s*(\w+|\d+)', line)\<close>. Every decimal digit is a word character, so the
  second alternative never matches where the first does not.\<close>

fun re_division :: "string \<Rightarrow> string option" where
  "re_division [] = None"
| "re_division (c # cs) =
     (if c = CHR ''/''
      then (case word1 (dropWhile is_space cs) of
              Some (divisor, _) \<Rightarrow> Some divisor
            | None \<Rightarrow> re_division cs)
      else re_division cs)"

definition division_errors :: "string list \<Rightarrow> nat \<Rightarrow> string \<Rightarrow> diagnostic list" where
  "division_errors lines i line =
     (case re_division line of
        None \<Rightarrow> []
      | Some divisor \<Rightarrow>
          (if divisor = ''0'' \<or> set_earlier lines i (divisor @ '' = 0'')
           then [\<lparr>err_type = ''ZeroDivisionError'',
                  err_message = ''Possible division by zero'',
                  err_line = i,
                  err_column = index_of ''/'' line,
                  err_prevention = ''Check divisor before division'',
                  err_fix = Some (WrapDivision i line)\<rparr>]
           else []))"

subsection \<open>File operations\<close>

text \<open>\<open>open\s*\(\s*[\'"]([^\'"]+)[\'"]\<close> at the start of a string, and searched for.\<close>

definition open_at :: "string \<Rightarrow> string option" where
  "open_at s = do {
     r \<leftarrow> lit ''open'' s;
     r \<leftarrow> lit ''('' (dropWhile is_space r);
     r \<leftarrow> (case dropWhile is_space r of [] \<Rightarrow> None | q # r' \<Rightarrow> if is_quote q then Some r' else None);
     (if takeWhile (\<lambda>c. \<not> is_quote c) r \<noteq> [] \<and> dropWhile (\<lambda>c. \<not> is_quote c) r \<noteq> []
      then Some (takeWhile (\<lambda>c. \<not> is_quote c) r) else None) }"

fun re_open_search :: "string \<Rightarrow> string option" where
  "re_open_search [] = None"
| "re_open_search (c # cs) =
     (case open_at (c # cs) of Some filename \<Rightarrow> Some filename | None \<Rightarrow> re_open_search cs)"

definition file_errors :: "nat \<Rightarrow> string \<Rightarrow> diagnostic list" where
  "file_errors i line =
     (case re_open_search line of
        None \<Rightarrow> []
      | Some filename \<Rightarrow>
          [\<lparr>err_type = ''FileNotFoundError'',
            err_message = ''File '' @ [CHR 0x27] @ filename @ [CHR 0x27] @ '' might not exist'',
            err_line = i,
            err_column = index_of ''open'' line,
            err_prevention = ''Check file exists before opening'',
            err_fix = Some (SafeFileOpen i filename)\<rparr>])"

subsection \<open>The scan\<close>

text \<open>The body of the loop over \<open>enumerate(lines)\<close>: what line \<open>i\<close> appends to \<open>errors\<close>.\<close>

definition detect_line :: "string list \<Rightarrow> code_context \<Rightarrow> nat \<Rightarrow> string \<Rightarrow> diagnostic list" where
  "detect_line lines ctx i line =
     (if skipped line then []
      else import_errors i line @ none_attr_errors lines i line @ undefined_errors ctx i line @
           division_errors lines i line @ file_errors i line)"

fun detect_lines :: "string list \<Rightarrow> code_context \<Rightarrow> nat \<Rightarrow> string list \<Rightarrow> diagnostic list" where
  "detect_lines lines ctx i [] = []"
| "detect_lines lines ctx i (line # rest) =
     detect_line lines ctx i line @ detect_lines lines ctx (Suc i) rest"

definition detect_errors_with_context :: "string \<Rightarrow> code_context \<Rightarrow> diagnostic list" where
  "detect_errors_with_context code ctx =
     detect_lines (split_on newline code) ctx 0 (split_on newline code)"

section \<open>Notions used in the statements\<close>

text \<open>A diagnostic whose fix descriptor has a type that \<open>apply_smart_fixes\<close> does not know.\<close>

definition unrecognized :: "diagnostic \<Rightarrow> bool" where
  "unrecognized e = (case err_fix e of Some (OtherFix _) \<Rightarrow> True | _ \<Rightarrow> False)"




text \<open>
  An occurrence of \<open><name>.<attr>\<close> in a line after the prefix \<open>pre\<close>: two runs of word
  characters, neither empty, with a dot between them.
\<close>

definition dotted_at :: "string \<Rightarrow> string \<Rightarrow> string \<Rightarrow> string \<Rightarrow> bool" where
  "dotted_at line pre var attr =
     (var \<noteq> [] \<and> attr \<noteq> [] \<and> list_all is_word var \<and> list_all is_word attr \<and>
      startswith (pre @ var @ ''.'' @ attr) line)"

text \<open>The diagnostics of one kind on one line.\<close>

definition on_line :: "string \<Rightarrow> nat \<Rightarrow> diagnostic list \<Rightarrow> diagnostic list" where
  "on_line kind i errors = filter (\<lambda>d. err_type d = kind \<and> err_line d = i) errors"

text \<open>No recorded parameter list holds the name \<open>self\<close>.\<close>

definition no_self :: "code_context \<Rightarrow> bool" where
  "no_self c = (\<forall>f ps. function_params c f = Some ps \<longrightarrow> ''self'' \<notin> set ps)"

section \<open>Lines and text\<close>

lemma split_on_nonempty: "split_on c s \<noteq> []"
  by (induction s) (auto split: list.splits)

lemma join_nl_push: "join_nl ((x # y) # ys) = x # join_nl (y # ys)"
  by (cases ys) simp_all

lemma join_split: "join_nl (split_on newline code) = code"
proof (induction code)
  case Nil
  show ?case by simp
next
  case (Cons x xs)
  obtain y ys where "split_on newline xs = y # ys"
    using split_on_nonempty [of newline xs] by (cases "split_on newline xs") auto
  with Cons show ?case by (auto simp: join_nl_push)
qed

lemma length_split_on: "length (split_on c s) = Suc (length (filter (\<lambda>x. x = c) s))"
  by (induction s) (auto split: list.splits simp: split_on_nonempty)

lemma newlines_join: "length ls \<le> Suc (length (filter (\<lambda>x. x = newline) (join_nl ls)))"
  by (induction ls rule: join_nl.induct) auto

lemma length_split_join: "length ls \<le> length (split_on newline (join_nl ls))"
  by (simp add: length_split_on newlines_join)

section \<open>The rewrite engine\<close>

lemma set_sort_by_line_desc: "set (sort_by_line_desc es) = set es"
  by (simp add: sort_by_line_desc_def)

lemma filter_sort_by_line_desc:
  "filter P (sort_by_line_desc es) = sort_by_line_desc (filter P es)"
  by (simp add: sort_by_line_desc_def filter_sort rev_filter [symmetric])

lemma apply_fix_no_fix: "err_fix e = None \<Longrightarrow> apply_fix ctx e st = Inr st"
  by (simp add: apply_fix_def)

lemma loop_no_fix:
  "\<forall>e \<in> set es. err_fix e = None \<Longrightarrow> apply_fixes_loop ctx es st = Inr st"
  by (induction es) (simp_all add: apply_fix_no_fix)

lemma apply_fix_unrecognized: "unrecognized e \<Longrightarrow> apply_fix ctx e st = Inr st"
  by (auto simp: apply_fix_def unrecognized_def split: option.splits fix_desc.splits)

lemma loop_filter_unrecognized:
  "apply_fixes_loop ctx (filter (\<lambda>e. \<not> unrecognized e) es) st = apply_fixes_loop ctx es st"
  by (induction es arbitrary: st) (auto simp: apply_fix_unrecognized split: sum.splits)

lemma length_splice: "n < length ls \<Longrightarrow> length (splice n new ls) = length ls - 1 + length new"
  by (simp add: splice_def)

lemma length_list_insert: "length (list_insert k x ls) = Suc (length ls)"
  by (simp add: list_insert_def)

text \<open>A fix whose line is in the buffer is applied without an error, and the buffer does
  not shrink.\<close>

lemma apply_fix_grows:
  assumes "err_line e < length (st_lines st)"
  shows "\<exists>st'. apply_fix ctx e st = Inr st' \<and> length (st_lines st) \<le> length (st_lines st')"
  using assms
  by (auto simp: apply_fix_def Let_def length_splice length_list_insert find_insertion_point_def
        null_check_block_def division_block_def file_open_block_def
      split: option.splits fix_desc.splits sum.splits)

lemma loop_grows:
  "\<forall>e \<in> set es. err_line e < length (st_lines st) \<Longrightarrow>
   \<exists>st'. apply_fixes_loop ctx es st = Inr st' \<and> length (st_lines st) \<le> length (st_lines st')"
proof (induction es arbitrary: st)
  case Nil
  show ?case by simp
next
  case (Cons e es)
  from Cons.prems obtain st1 where s1: "apply_fix ctx e st = Inr st1"
    and l1: "length (st_lines st) \<le> length (st_lines st1)"
    using apply_fix_grows [of e st ctx] by auto
  from Cons.prems l1 have "\<forall>e \<in> set es. err_line e < length (st_lines st1)" by auto
  from Cons.IH [OF this] obtain st2 where "apply_fixes_loop ctx es st1 = Inr st2"
    and "length (st_lines st1) \<le> length (st_lines st2)" by auto
  with s1 l1 show ?case by auto
qed

lemma apply_smart_fixes_grows:
  assumes "\<forall>e \<in> set errors. err_line e < length (split_on newline code)"
  shows "\<exists>out. apply_smart_fixes code errors ctx = Inr out \<and>
           length (split_on newline code) \<le> length (split_on newline out)"
proof -
  let ?st = "\<lparr>st_lines = split_on newline code, st_added_imports = {}, st_defined_vars = {}\<rparr>"
  from assms have "\<forall>e \<in> set (sort_by_line_desc errors). err_line e < length (st_lines ?st)"
    by (simp add: set_sort_by_line_desc)
  from loop_grows [OF this] obtain st' where
    run: "apply_fixes_loop ctx (sort_by_line_desc errors) ?st = Inr st'" and
    len: "length (st_lines ?st) \<le> length (st_lines st')" by blast
  have "length (st_lines st') \<le> length (split_on newline (join_nl (st_lines st')))"
    by (rule length_split_join)
  with run len show ?thesis by (simp add: apply_smart_fixes_def)
qed

text \<open>
  C10. If no diagnostic of the list carries a fix descriptor (the empty list among them),
  \<open>apply_smart_fixes\<close> returns the input text as it was.
\<close>

theorem no_fix_identity:
  assumes "\<forall>e \<in> set errors. err_fix e = None"
  shows "apply_smart_fixes code errors ctx = Inr code"
  using assms by (simp add: apply_smart_fixes_def loop_no_fix set_sort_by_line_desc join_split)

theorem no_fix_identity_witness:
  "apply_smart_fixes ''x = 1\<newline>print(x)''
     [\<lparr>err_type = ''Note'', err_message = ''nothing to do'', err_line = 1, err_column = 0,
       err_prevention = [], err_fix = None\<rparr>] empty_context = Inr ''x = 1\<newline>print(x)''"
  using no_fix_identity
    [of "[\<lparr>err_type = ''Note'', err_message = ''nothing to do'', err_line = 1, err_column = 0,
           err_prevention = [], err_fix = None\<rparr>]" "''x = 1\<newline>print(x)''" empty_context]
  by simp

text \<open>
  C8. On a list of diagnostics whose lines are lines of the text, \<open>apply_smart_fixes\<close>
  raises nothing; a diagnostic with a fix of an unknown type leaves the state of the loop
  as it is, and the result is that of the list without such diagnostics.
\<close>

theorem apply_smart_fixes_never_fails:
  assumes "\<forall>e \<in> set errors. err_line e < length (split_on newline code)"
  shows "(\<exists>out. apply_smart_fixes code errors ctx = Inr out) \<and>
         (\<forall>e \<in> set errors. unrecognized e \<longrightarrow> (\<forall>st. apply_fix ctx e st = Inr st)) \<and>
         apply_smart_fixes code errors ctx =
           apply_smart_fixes code (filter (\<lambda>e. \<not> unrecognized e) errors) ctx"
proof (intro conjI)
  from apply_smart_fixes_grows [OF assms]
  show "\<exists>out. apply_smart_fixes code errors ctx = Inr out" by blast
next
  show "\<forall>e \<in> set errors. unrecognized e \<longrightarrow> (\<forall>st. apply_fix ctx e st = Inr st)"
    by (simp add: apply_fix_unrecognized)
next
  show "apply_smart_fixes code errors ctx =
          apply_smart_fixes code (filter (\<lambda>e. \<not> unrecognized e) errors) ctx"
    by (simp add: apply_smart_fixes_def filter_sort_by_line_desc [symmetric]
          loop_filter_unrecognized)
qed

theorem apply_smart_fixes_never_fails_witness:
  "list_all (\<lambda>e. err_line e < length (split_on newline ''x = 1\<newline>import pandas''))
      [\<lparr>err_type = ''StyleWarning'', err_message = ''rename x'', err_line = 0, err_column = 0,
        err_prevention = [], err_fix = Some (OtherFix ''rename'')\<rparr>,
       \<lparr>err_type = ''ModuleNotFoundError'', err_message = [], err_line = 1, err_column = 0,
        err_prevention = [], err_fix = Some (AddComment 1 ''import pandas  # pip'')\<rparr>] \<and>
   apply_smart_fixes ''x = 1\<newline>import pandas''
      [\<lparr>err_type = ''StyleWarning'', err_message = ''rename x'', err_line = 0, err_column = 0,
        err_prevention = [], err_fix = Some (OtherFix ''rename'')\<rparr>,
       \<lparr>err_type = ''ModuleNotFoundError'', err_message = [], err_line = 1, err_column = 0,
        err_prevention = [], err_fix = Some (AddComment 1 ''import pandas  # pip'')\<rparr>]
      empty_context = Inr ''x = 1\<newline>import pandas  # pip''"
proof -
  let ?code = "''x = 1\<newline>import pandas''"
  let ?known = "\<lparr>err_type = ''ModuleNotFoundError'', err_message = [], err_line = 1, err_column = 0,
        err_prevention = [], err_fix = Some (AddComment 1 ''import pandas  # pip'')\<rparr>"
  let ?errors = "[\<lparr>err_type = ''StyleWarning'', err_message = ''rename x'', err_line = 0, err_column = 0,
        err_prevention = [], err_fix = Some (OtherFix ''rename'')\<rparr>, ?known]"
  have h: "list_all (\<lambda>e. err_line e < length (split_on newline ?code)) ?errors"
    by code_simp
  then have h': "\<forall>e \<in> set ?errors. err_line e < length (split_on newline ?code)"
    unfolding list_all_iff .
  have f: "filter (\<lambda>e. \<not> unrecognized e) ?errors = [?known]"
    by code_simp
  have r: "apply_smart_fixes ?code [?known] empty_context = Inr ''x = 1\<newline>import pandas  # pip''"
    by code_simp
  from apply_smart_fixes_never_fails [OF h', of empty_context]
  have "apply_smart_fixes ?code ?errors empty_context = apply_smart_fixes ?code [?known] empty_context"
    unfolding f by blast
  with h r show ?thesis by simp
qed

section \<open>Strings and patterns\<close>

lemma startswith_take: "startswith p s = (take (length p) s = p)"
  by (induction p s rule: startswith.induct) auto

lemma startswith_append: "startswith p s = (\<exists>r. s = p @ r)"
  unfolding startswith_take by (metis append_eq_conv_conj append_take_drop_id)

lemma lit_Some: "lit p s = Some r \<longleftrightarrow> s = p @ r"
proof
  assume "lit p s = Some r"
  then have "take (length p) s = p" "drop (length p) s = r"
    by (auto simp: lit_def startswith_take split: if_splits)
  then show "s = p @ r" by (metis append_take_drop_id)
next
  assume "s = p @ r"
  then show "lit p s = Some r" by (simp add: lit_def startswith_take)
qed

lemma contains_append: "contains sub s = (\<exists>p q. s = p @ sub @ q)"
proof (induction s)
  case Nil
  show ?case by auto
next
  case (Cons c cs)
  show ?case
  proof
    assume "contains sub (c # cs)"
    then consider "startswith sub (c # cs)" | "contains sub cs" by auto
    then show "\<exists>p q. c # cs = p @ sub @ q"
    proof cases
      case 1
      then obtain r where "c # cs = sub @ r" by (auto simp: startswith_append)
      then have "c # cs = [] @ sub @ r" by simp
      then show ?thesis by blast
    next
      case 2
      with Cons obtain p q where "cs = p @ sub @ q" by auto
      then have "c # cs = (c # p) @ sub @ q" by simp
      then show ?thesis by blast
    qed
  next
    assume "\<exists>p q. c # cs = p @ sub @ q"
    then obtain p q where pq: "c # cs = p @ sub @ q" by auto
    show "contains sub (c # cs)"
    proof (cases p)
      case Nil
      with pq have "startswith sub (c # cs)" by (auto simp: startswith_append)
      then show ?thesis by simp
    next
      case (Cons a p')
      with pq have "cs = p' @ sub @ q" by simp
      with Cons.IH have "contains sub cs" by blast
      then show ?thesis by simp
    qed
  qed
qed

lemma word1_Some:
  "word1 s = Some (w, r) \<Longrightarrow> s = w @ r \<and> w \<noteq> [] \<and> list_all is_word w"
  by (cases s) (auto simp: word1_def list_all_iff split: if_splits dest: set_takeWhileD)

lemma word1_run:
  assumes "w \<noteq> []" "list_all is_word w" "r = [] \<or> \<not> is_word (hd r)"
  shows "word1 (w @ r) = Some (w, r)"
proof -
  from assms have tw: "takeWhile is_word (w @ r) = w"
    by (cases r) (auto simp: list_all_iff takeWhile_append2)
  from assms have dw: "dropWhile is_word (w @ r) = r"
    by (cases r) (auto simp: list_all_iff dropWhile_append2)
  from assms have "is_word (hd (w @ r))" by (cases w) (auto simp: list_all_iff)
  with tw dw assms show ?thesis by (simp add: word1_def)
qed

lemma word1_prefix:
  assumes "a \<noteq> []" "list_all is_word a"
  shows "\<exists>w r'. word1 (a @ r) = Some (w, r')"
  using assms by (cases a) (auto simp: word1_def)

lemma not_word_dot: "\<not> is_word CHR ''.''"
  by (simp add: is_word_def is_ascii_letter_def is_ascii_digit_def is_latin_letter_def
        is_latin_number_def)

lemma attr_at_Some:
  assumes "attr_at s = Some (var, attr)"
  shows "dotted_at s [] var attr"
proof -
  from assms obtain r1 r2 r3 where
    a: "word1 s = Some (var, r1)" and b: "lit ''.'' r1 = Some r2" and c: "word1 r2 = Some (attr, r3)"
    by (auto simp: attr_at_def split: Option.bind_splits)
  from word1_Some [OF a] have 1: "s = var @ r1" "var \<noteq> []" "list_all is_word var" by auto
  from word1_Some [OF c] have 2: "r2 = attr @ r3" "attr \<noteq> []" "list_all is_word attr" by auto
  from b have 3: "r1 = ''.'' @ r2" by (simp add: lit_Some)
  have "s = ([] @ var @ ''.'' @ attr) @ r3" unfolding 1 3 2 by simp
  then have "startswith ([] @ var @ ''.'' @ attr) s" unfolding startswith_append by blast
  with 1 2 show ?thesis by (simp add: dotted_at_def)
qed

lemma attr_at_complete:
  assumes "dotted_at s [] v a"
  shows "attr_at s \<noteq> None"
proof -
  from assms obtain post where s: "s = v @ ''.'' @ a @ post"
    and v: "v \<noteq> []" "list_all is_word v" and a: "a \<noteq> []" "list_all is_word a"
    by (auto simp: dotted_at_def startswith_append)
  have "word1 (v @ (''.'' @ a @ post)) = Some (v, ''.'' @ a @ post)"
    using v by (intro word1_run) (auto simp: not_word_dot)
  moreover have "lit ''.'' (''.'' @ a @ post) = Some (a @ post)" by (simp add: lit_Some)
  moreover from word1_prefix [OF a] obtain w r' where "word1 (a @ post) = Some (w, r')" by blast
  ultimately show ?thesis using s by (simp add: attr_at_def)
qed

lemma dotted_at_Cons:
  "dotted_at (c # cs) (c' # pre) v a \<longleftrightarrow> c = c' \<and> dotted_at cs pre v a"
  by (auto simp: dotted_at_def)

lemma re_attr_search_leftmost:
  assumes "re_attr_search s = Some (var, attr)"
  shows "\<exists>pre. dotted_at s pre var attr \<and>
           (\<forall>pre' v a. dotted_at s pre' v a \<longrightarrow> length pre \<le> length pre')"
  using assms
proof (induction s)
  case Nil
  then show ?case by simp
next
  case (Cons c cs)
  show ?case
  proof (cases "attr_at (c # cs)")
    case (Some m)
    with Cons.prems have "attr_at (c # cs) = Some (var, attr)" by simp
    from attr_at_Some [OF this] have "dotted_at (c # cs) [] var attr" .
    then show ?thesis by (intro exI [of _ "[]"]) simp
  next
    case None
    with Cons.prems have "re_attr_search cs = Some (var, attr)" by simp
    from Cons.IH [OF this] obtain pre where p: "dotted_at cs pre var attr"
      and least: "\<forall>pre' v a. dotted_at cs pre' v a \<longrightarrow> length pre \<le> length pre'" by blast
    have "length (c # pre) \<le> length pre'" if d: "dotted_at (c # cs) pre' v a" for pre' v a
    proof (cases pre')
      case Nil
      with d attr_at_complete [of "c # cs" v a] None show ?thesis by simp
    next
      case (Cons c' p')
      with d have "dotted_at cs p' v a" by (simp add: dotted_at_Cons)
      with least Cons show ?thesis by auto
    qed
    with p show ?thesis by (intro exI [of _ "c # pre"]) (simp add: dotted_at_Cons)
  qed
qed

section \<open>The structure of the scan\<close>

lemma detect_line_line: "d \<in> set (detect_line lines ctx i line) \<Longrightarrow> err_line d = i"
  by (auto simp: detect_line_def import_errors_def none_attr_errors_def undefined_errors_def
        name_error_def division_errors_def file_errors_def
      split: if_splits option.splits prod.splits)

lemma detect_lines_range:
  "d \<in> set (detect_lines lines ctx k rest) \<Longrightarrow> k \<le> err_line d \<and> err_line d < k + length rest"
proof (induction rest arbitrary: k)
  case Nil
  then show ?case by simp
next
  case (Cons line rest)
  from Cons.prems consider "d \<in> set (detect_line lines ctx k line)"
    | "d \<in> set (detect_lines lines ctx (Suc k) rest)" by auto
  then show ?case
  proof cases
    case 1
    then show ?thesis by (simp add: detect_line_line)
  next
    case 2
    from Cons.IH [OF this] show ?thesis by simp
  qed
qed

lemma detect_lines_on_line:
  "filter (\<lambda>d. err_line d = i) (detect_lines lines ctx k rest) =
     (if k \<le> i \<and> i < k + length rest then detect_line lines ctx i (rest ! (i - k)) else [])"
proof (induction rest arbitrary: k)
  case Nil
  show ?case by auto
next
  case (Cons line rest)
  have here: "filter (\<lambda>d. err_line d = i) (detect_line lines ctx k line) =
      (if i = k then detect_line lines ctx k line else [])"
    by (auto simp: filter_empty_conv filter_id_conv dest: detect_line_line)
  have later: "i = k \<Longrightarrow> filter (\<lambda>d. err_line d = i) (detect_lines lines ctx (Suc k) rest) = []"
    by (auto simp: filter_empty_conv dest: detect_lines_range)
  show ?case
  proof (cases "i = k")
    case True
    with here later show ?thesis by simp
  next
    case False
    with here Cons.IH [of "Suc k"] show ?thesis
      by (auto simp: nth_Cons' Suc_diff_le split: if_splits)
  qed
qed

lemma scan_on_line:
  "filter (\<lambda>d. err_line d = i) (detect_errors_with_context code ctx) =
     (if i < length (split_on newline code)
      then detect_line (split_on newline code) ctx i (split_on newline code ! i) else [])"
  by (simp add: detect_errors_with_context_def detect_lines_on_line)

lemma on_line_filter:
  "on_line kind i errors = filter (\<lambda>d. err_type d = kind) (filter (\<lambda>d. err_line d = i) errors)"
  by (simp add: on_line_def conj_commute)

lemma name_errors_of_line:
  "filter (\<lambda>d. err_type d = ''NameError'') (detect_line lines ctx i line) =
     (if skipped line then [] else undefined_errors ctx i line)"
  by (simp add: detect_line_def import_errors_def none_attr_errors_def undefined_errors_def
        name_error_def division_errors_def file_errors_def
      split: option.splits prod.splits)

lemma attr_errors_of_line:
  "filter (\<lambda>d. err_type d = ''AttributeError'') (detect_line lines ctx i line) =
     (if skipped line then [] else none_attr_errors lines i line)"
  by (simp add: detect_line_def import_errors_def none_attr_errors_def undefined_errors_def
        name_error_def division_errors_def file_errors_def
      split: option.splits prod.splits)

lemma scan_in_range:
  "d \<in> set (detect_errors_with_context code ctx) \<Longrightarrow> err_line d < length (split_on newline code)"
  by (auto simp: detect_errors_with_context_def dest: detect_lines_range)

lemma find_first: "\<forall>y \<in> set ys. \<not> P y \<Longrightarrow> P x \<Longrightarrow> find P (ys @ x # zs) = Some x"
  by (induction ys) auto

lemma length_undefined_errors: "length (undefined_errors ctx i line) \<le> Suc 0"
  by (simp add: undefined_errors_def split: option.splits)

lemma length_none_attr_errors: "length (none_attr_errors lines i line) \<le> Suc 0"
  by (simp add: none_attr_errors_def split: option.splits prod.splits)

lemma name_errors_on_line:
  "on_line ''NameError'' i (detect_errors_with_context code ctx) =
     (if i < length (split_on newline code) \<and> \<not> skipped (split_on newline code ! i)
      then undefined_errors ctx i (split_on newline code ! i) else [])"
  by (simp add: on_line_filter scan_on_line name_errors_of_line)

lemma attr_errors_on_line:
  "on_line ''AttributeError'' i (detect_errors_with_context code ctx) =
     (if i < length (split_on newline code) \<and> \<not> skipped (split_on newline code ! i)
      then none_attr_errors (split_on newline code) i (split_on newline code ! i) else [])"
  by (simp add: on_line_filter scan_on_line attr_errors_of_line)

lemma set_earlier_nth:
  "set_earlier lines i needle \<Longrightarrow> \<exists>j q r. j < i \<and> j < length lines \<and> lines ! j = q @ needle @ r"
proof -
  assume "set_earlier lines i needle"
  then obtain l where l: "l \<in> set (take i lines)" and c: "contains needle l"
    by (auto simp: set_earlier_def list_ex_iff)
  from l obtain j where "j < length (take i lines)" "take i lines ! j = l"
    by (auto simp: in_set_conv_nth)
  then have "j < i" "j < length lines" "lines ! j = l" by auto
  with c show ?thesis unfolding contains_append by blast
qed

lemma none_attr_errors_mem:
  assumes "d \<in> set (none_attr_errors lines i line)"
  shows "\<exists>var attr. re_attr_search line = Some (var, attr) \<and> set_earlier lines i (var @ '' = None'') \<and>
           err_fix d = Some (WrapWithCheck i var line)"
proof (cases "re_attr_search line")
  case None
  with assms show ?thesis by (simp add: none_attr_errors_def)
next
  case (Some m)
  obtain var attr where "m = (var, attr)" by (cases m)
  with Some assms show ?thesis by (auto simp: none_attr_errors_def split: if_splits)
qed

section \<open>The claims about the scanner\<close>

text \<open>
  C6. For every text and every context, \<open>apply_smart_fixes\<close> on the diagnostics that the scan
  of the text produces returns a text, and that text has at least as many lines as the
  input: each fix replaces one line by one or four lines, or inserts a line.
\<close>

theorem fixes_never_shrink:
  "\<exists>out. apply_smart_fixes code (detect_errors_with_context code ctx) ctx = Inr out \<and>
         length (split_on newline code) \<le> length (split_on newline out)"
  by (rule apply_smart_fixes_grows) (simp add: scan_in_range)

theorem fixes_never_shrink_witness:
  "\<exists>out. apply_smart_fixes ''data = None\<newline>result = data.process()''
            (detect_errors_with_context ''data = None\<newline>result = data.process()''
               (analyze_code_context ''data = None\<newline>result = data.process()''))
            (analyze_code_context ''data = None\<newline>result = data.process()'') = Inr out \<and>
         length (split_on newline ''data = None\<newline>result = data.process()'')
           \<le> length (split_on newline out)"
  by (rule fixes_never_shrink)

text \<open>
  C7. A diagnostic of type \<open>AttributeError\<close> on a line is produced only if the line holds
  an occurrence of \<open><name>.<attr>\<close> and a line strictly before it holds the text
  \<open><name> = None\<close>; the name is the one the fix descriptor carries.
\<close>

theorem none_attr_only_after_none:
  assumes "d \<in> set (detect_errors_with_context code ctx)" and "err_type d = ''AttributeError''"
  shows "\<exists>var attr pre j q r.
           err_line d < length (split_on newline code) \<and>
           dotted_at (split_on newline code ! err_line d) pre var attr \<and>
           j < err_line d \<and>
           split_on newline code ! j = q @ var @ '' = None'' @ r \<and>
           err_fix d = Some (WrapWithCheck (err_line d) var (split_on newline code ! err_line d))"
proof -
  let ?lines = "split_on newline code"
  let ?i = "err_line d"
  from assms have "d \<in> set (on_line ''AttributeError'' ?i (detect_errors_with_context code ctx))"
    by (simp add: on_line_def)
  then have i: "?i < length ?lines" and m: "d \<in> set (none_attr_errors ?lines ?i (?lines ! ?i))"
    by (auto simp: attr_errors_on_line split: if_splits)
  from none_attr_errors_mem [OF m] obtain var attr where
    s: "re_attr_search (?lines ! ?i) = Some (var, attr)" and
    e: "set_earlier ?lines ?i (var @ '' = None'')" and
    f: "err_fix d = Some (WrapWithCheck ?i var (?lines ! ?i))" by blast
  from re_attr_search_leftmost [OF s] obtain pre where "dotted_at (?lines ! ?i) pre var attr"
    by blast
  moreover from set_earlier_nth [OF e] obtain j q r where
    "j < ?i" "?lines ! j = q @ (var @ '' = None'') @ r" by blast
  ultimately show ?thesis using i f by (intro exI [of _ var] exI [of _ attr] exI [of _ pre]
    exI [of _ j] exI [of _ q] exI [of _ r]) simp
qed

theorem none_attr_only_after_none_witness:
  "\<lparr>err_type = ''AttributeError'',
     err_message = [CHR 0x27] @ ''data'' @ [CHR 0x27] @ '' might be None'',
     err_line = 1, err_column = 9,
     err_prevention = ''Check if object is None first'',
     err_fix = Some (WrapWithCheck 1 ''data'' ''result = data.process()'')\<rparr>
     \<in> set (detect_errors_with_context ''data = None\<newline>result = data.process()''
              (analyze_code_context ''data = None\<newline>result = data.process()'')) \<and>
   (\<exists>var attr pre j q r.
     dotted_at ([''data = None'', ''result = data.process()''] ! 1) pre var attr \<and>
     j < (1::nat) \<and>
     [''data = None'', ''result = data.process()''] ! j = q @ var @ '' = None'' @ r \<and>
     Some (WrapWithCheck 1 ''data'' ''result = data.process()'') =
       Some (WrapWithCheck 1 var ([''data = None'', ''result = data.process()''] ! 1)))"
proof -
  let ?code = "''data = None\<newline>result = data.process()''"
  let ?d = "\<lparr>err_type = ''AttributeError'',
     err_message = [CHR 0x27] @ ''data'' @ [CHR 0x27] @ '' might be None'',
     err_line = 1, err_column = 9,
     err_prevention = ''Check if object is None first'',
     err_fix = Some (WrapWithCheck 1 ''data'' ''result = data.process()'')\<rparr>"
  have l: "split_on newline ?code = [''data = None'', ''result = data.process()'']"
    by code_simp
  have m: "?d \<in> set (detect_errors_with_context ?code (analyze_code_context ?code))"
    by code_simp
  have t: "err_type ?d = ''AttributeError''" by simp
  have n: "err_line ?d = 1" and f: "err_fix ?d = Some (WrapWithCheck 1 ''data'' ''result = data.process()'')"
    by simp_all
  from none_attr_only_after_none [OF m t] m show ?thesis unfolding l n f by blast
qed

text \<open>
  C9. The scan produces at most one diagnostic of type \<open>AttributeError\<close> for a line, and
  its name is that of the leftmost occurrence of \<open><name>.<attr>\<close> on the line: no
  occurrence starts before it.
\<close>

theorem one_none_attr_per_line:
  "length (on_line ''AttributeError'' i (detect_errors_with_context code ctx)) \<le> 1 \<and>
   (\<forall>d \<in> set (on_line ''AttributeError'' i (detect_errors_with_context code ctx)).
      \<exists>pre var attr.
        dotted_at (split_on newline code ! i) pre var attr \<and>
        (\<forall>pre' v a. dotted_at (split_on newline code ! i) pre' v a \<longrightarrow> length pre \<le> length pre') \<and>
        err_fix d = Some (WrapWithCheck i var (split_on newline code ! i)))"
proof (intro conjI ballI)
  show "length (on_line ''AttributeError'' i (detect_errors_with_context code ctx)) \<le> 1"
    by (simp add: attr_errors_on_line length_none_attr_errors)
next
  let ?lines = "split_on newline code"
  fix d
  assume "d \<in> set (on_line ''AttributeError'' i (detect_errors_with_context code ctx))"
  then have "d \<in> set (none_attr_errors ?lines i (?lines ! i))"
    by (auto simp: attr_errors_on_line split: if_splits)
  from none_attr_errors_mem [OF this] obtain var attr where
    s: "re_attr_search (?lines ! i) = Some (var, attr)" and
    f: "err_fix d = Some (WrapWithCheck i var (?lines ! i))" by blast
  from re_attr_search_leftmost [OF s] f
  show "\<exists>pre var attr.
        dotted_at (?lines ! i) pre var attr \<and>
        (\<forall>pre' v a. dotted_at (?lines ! i) pre' v a \<longrightarrow> length pre \<le> length pre') \<and>
        err_fix d = Some (WrapWithCheck i var (?lines ! i))" by blast
qed

theorem one_none_attr_per_line_witness:
  "on_line ''AttributeError'' 2
     (detect_errors_with_context ''a = None\<newline>b = None\<newline>x = a.f + b.g''
        (analyze_code_context ''a = None\<newline>b = None\<newline>x = a.f + b.g'')) =
     [\<lparr>err_type = ''AttributeError'',
       err_message = [CHR 0x27] @ ''a'' @ [CHR 0x27] @ '' might be None'',
       err_line = 2, err_column = 4,
       err_prevention = ''Check if object is None first'',
       err_fix = Some (WrapWithCheck 2 ''a'' ''x = a.f + b.g'')\<rparr>] \<and>
   (\<exists>pre attr.
      dotted_at ''x = a.f + b.g'' pre ''a'' attr \<and>
      (\<forall>pre' v a. dotted_at ''x = a.f + b.g'' pre' v a \<longrightarrow> length pre \<le> length pre'))"
proof -
  let ?code = "''a = None\<newline>b = None\<newline>x = a.f + b.g''"
  let ?d = "\<lparr>err_type = ''AttributeError'',
       err_message = [CHR 0x27] @ ''a'' @ [CHR 0x27] @ '' might be None'',
       err_line = 2, err_column = 4,
       err_prevention = ''Check if object is None first'',
       err_fix = Some (WrapWithCheck 2 ''a'' ''x = a.f + b.g'')\<rparr>"
  have e: "on_line ''AttributeError'' 2
     (detect_errors_with_context ?code (analyze_code_context ?code)) = [?d]"
    by code_simp
  have l: "split_on newline ?code ! 2 = ''x = a.f + b.g''" by code_simp
  have f: "err_fix ?d = Some (WrapWithCheck 2 ''a'' ''x = a.f + b.g'')" by simp
  have "?d \<in> set [?d]" by (simp only: list.set insertI1)
  with one_none_attr_per_line [of 2 ?code "analyze_code_context ?code"]
  obtain pre var attr where
    d: "dotted_at ''x = a.f + b.g'' pre var attr" and
    m: "\<forall>pre' v a. dotted_at ''x = a.f + b.g'' pre' v a \<longrightarrow> length pre \<le> length pre'" and
    v: "err_fix ?d = Some (WrapWithCheck 2 var ''x = a.f + b.g'')"
    unfolding e l by blast
  from v f have "var = ''a''" by simp
  with d m e show ?thesis by blast
qed

text \<open>
  C5, as amended. The scan produces at most one diagnostic of type \<open>NameError\<close> for a line;
  and if the line is scanned (it is neither blank nor a comment line) and one of its tokens
  passes all the exclusions, it produces exactly one, for the first such token.
\<close>

theorem one_undefined_name_per_scanned_line:
  "length (on_line ''NameError'' i (detect_errors_with_context code ctx)) \<le> 1 \<and>
   (i < length (split_on newline code) \<and> \<not> skipped (split_on newline code ! i) \<and>
    (\<exists>w \<in> set (var_refs (split_on newline code ! i)). \<not> excluded ctx (split_on newline code ! i) w)
    \<longrightarrow>
    (\<exists>before v after.
       var_refs (split_on newline code ! i) = before @ v # after \<and>
       (\<forall>u \<in> set before. excluded ctx (split_on newline code ! i) u) \<and>
       \<not> excluded ctx (split_on newline code ! i) v \<and>
       on_line ''NameError'' i (detect_errors_with_context code ctx) =
         [name_error i (split_on newline code ! i) v]))"
proof (intro conjI impI)
  show "length (on_line ''NameError'' i (detect_errors_with_context code ctx)) \<le> 1"
    by (simp add: name_errors_on_line length_undefined_errors)
next
  let ?line = "split_on newline code ! i"
  assume h: "i < length (split_on newline code) \<and> \<not> skipped ?line \<and>
    (\<exists>w \<in> set (var_refs ?line). \<not> excluded ctx ?line w)"
  then obtain before v after where
    dec: "var_refs ?line = before @ v # after" and v: "\<not> excluded ctx ?line v"
    and bef: "\<forall>u \<in> set before. \<not> \<not> excluded ctx ?line u"
    using split_list_first_prop [of "var_refs ?line" "\<lambda>w. \<not> excluded ctx ?line w"] by blast
  from bef v have "first_undefined ctx ?line = Some v"
    unfolding first_undefined_def dec by (intro find_first) auto
  with h have "on_line ''NameError'' i (detect_errors_with_context code ctx) = [name_error i ?line v]"
    by (simp add: name_errors_on_line undefined_errors_def)
  with dec v bef show "\<exists>before v after.
       var_refs ?line = before @ v # after \<and>
       (\<forall>u \<in> set before. excluded ctx ?line u) \<and>
       \<not> excluded ctx ?line v \<and>
       on_line ''NameError'' i (detect_errors_with_context code ctx) = [name_error i ?line v]"
    by blast
qed

theorem one_undefined_name_per_scanned_line_witness:
  "length (on_line ''NameError'' 0
     (detect_errors_with_context ''x = foo + bar'' (analyze_code_context ''x = foo + bar''))) \<le> 1 \<and>
   (\<exists>before v after.
       var_refs (split_on newline ''x = foo + bar'' ! 0) = before @ v # after \<and>
       (\<forall>u \<in> set before. excluded (analyze_code_context ''x = foo + bar'')
           (split_on newline ''x = foo + bar'' ! 0) u) \<and>
       \<not> excluded (analyze_code_context ''x = foo + bar'') (split_on newline ''x = foo + bar'' ! 0) v \<and>
       on_line ''NameError'' 0
         (detect_errors_with_context ''x = foo + bar'' (analyze_code_context ''x = foo + bar'')) =
         [name_error 0 (split_on newline ''x = foo + bar'' ! 0) v])"
proof -
  have "0 < length (split_on newline ''x = foo + bar'') \<and>
      \<not> skipped (split_on newline ''x = foo + bar'' ! 0) \<and>
      (\<exists>w \<in> set (var_refs (split_on newline ''x = foo + bar'' ! 0)).
         \<not> excluded (analyze_code_context ''x = foo + bar'') (split_on newline ''x = foo + bar'' ! 0) w)"
    by code_simp
  with one_undefined_name_per_scanned_line
    [of 0 "''x = foo + bar''" "analyze_code_context ''x = foo + bar''"]
  show ?thesis by blast
qed

text \<open>
  As C5 is written, for every line, it fails on a comment line: the token \<open>foo\<close> of the
  line \<open># foo\<close> passes all the exclusions, and the scan, which skips the line, reports
  nothing.
\<close>

theorem undefined_name_comment_line_counterexample:
  "''foo'' \<in> set (var_refs ''# foo'') \<and>
   \<not> excluded (analyze_code_context ''# foo'') ''# foo'' ''foo'' \<and>
   split_on newline ''# foo'' = [''# foo''] \<and>
   detect_errors_with_context ''# foo'' (analyze_code_context ''# foo'') = []"
  by code_simp

section \<open>The claims about the context\<close>



lemma parse_params_Nil: "parse_params [] = []"
  by (simp add: parse_params_def raw_params_def raw_param_def strip_def)













lemma self_not_param: "''self'' \<notin> set (parse_params params)"
  by (simp add: parse_params_def)

lemma params_ctx_other:
  "function_params (ctx_import i s c) = function_params c"
  "function_params (ctx_from_import s c) = function_params c"
  "function_params (ctx_class s c) = function_params c"
  "function_params (ctx_for i s c) = function_params c"
  "function_params (ctx_assign s c) = function_params c"
  "function_params (ctx_multi_assign s c) = function_params c"
  by (auto simp: ctx_import_def ctx_from_import_def ctx_class_def ctx_for_def ctx_assign_def
        ctx_multi_assign_def split: option.splits)


lemma no_self_ctx_def: "no_self c \<Longrightarrow> no_self (ctx_def s c)"
  by (auto simp: no_self_def ctx_def_def self_not_param split: option.splits if_splits)

lemma no_self_analyze_line: "no_self c \<Longrightarrow> no_self (analyze_line i line c)"
  using no_self_ctx_def [of "ctx_from_import (strip line) (ctx_import i (strip line) c)" "strip line"]
  by (simp add: analyze_line_def no_self_def params_ctx_other)

lemma no_self_analyze_lines: "no_self c \<Longrightarrow> no_self (analyze_lines i ls c)"
  by (induction ls arbitrary: i c) (simp_all add: no_self_analyze_line)




text \<open>
  C3, as amended. No parameter list recorded in \<open>function_params\<close> holds the name \<open>self\<close>,
  and the names that the function-definition branch adds to \<open>defined_vars\<close> are the
  function name and that list. The name \<open>cls\<close> is recorded like any other parameter.
\<close>

theorem params_exclude_self:
  "(function_params (analyze_code_context code) f = Some ps \<longrightarrow> ''self'' \<notin> set ps) \<and>
   (re_def s = Some (g, params) \<longrightarrow>
      ''self'' \<notin> set (parse_params params) \<and>
      defined_vars (ctx_def s c) = insert g (defined_vars c) \<union> set (parse_params params) \<and>
      (params \<noteq> [] \<longrightarrow> function_params (ctx_def s c) g = Some (parse_params params)))"
proof (intro conjI impI)
  have "no_self empty_context" by (simp add: no_self_def empty_context_def)
  then have "no_self (analyze_code_context code)"
    unfolding analyze_code_context_def by (rule no_self_analyze_lines)
  moreover assume "function_params (analyze_code_context code) f = Some ps"
  ultimately show "''self'' \<notin> set ps" unfolding no_self_def by blast
next
  show "''self'' \<notin> set (parse_params params)" by (rule self_not_param)
next
  assume "re_def s = Some (g, params)"
  then show "defined_vars (ctx_def s c) = insert g (defined_vars c) \<union> set (parse_params params)"
    by (simp add: ctx_def_def parse_params_Nil)
next
  assume "re_def s = Some (g, params)" "params \<noteq> []"
  then show "function_params (ctx_def s c) g = Some (parse_params params)"
    by (simp add: ctx_def_def)
qed

theorem params_exclude_self_witness:
  "''self'' \<notin> set [''x''] \<and>
   ''self'' \<notin> set (parse_params ''self, x=1'') \<and>
   defined_vars (ctx_def ''def f(self, x=1):'' empty_context) =
     insert ''f'' (defined_vars empty_context) \<union> set (parse_params ''self, x=1'') \<and>
   function_params (ctx_def ''def f(self, x=1):'' empty_context) ''f'' = Some (parse_params ''self, x=1'')"
proof -
  have p: "function_params (analyze_code_context ''def f(self, x=1):'') ''f'' = Some [''x'']"
    by code_simp
  have r: "re_def ''def f(self, x=1):'' = Some (''f'', ''self, x=1'')" by code_simp
  have n: "''self, x=1'' \<noteq> []" by simp
  from params_exclude_self [of "''def f(self, x=1):''" "''f''" "[''x'']" "''def f(self, x=1):''"
      "''f''" "''self, x=1''" empty_context] p r n
  show ?thesis by blast
qed

text \<open>As C3 is written, for \<open>self\<close> and \<open>cls\<close>, it fails for \<open>cls\<close>.\<close>

theorem params_keep_cls_counterexample:
  "function_params (analyze_code_context ''def f(cls, x):'') ''f'' = Some [''cls'', ''x''] \<and>
   ''cls'' \<in> defined_vars (analyze_code_context ''def f(cls, x):'')"
  by code_simp

section \<open>The two scenarios\<close>

text \<open>
  C2. For the text \<open>import pandas\<close> the scan yields two diagnostics, not one: the
  unresolved module, and an undefined name for the keyword \<open>import\<close>, which is in none of
  the sets the detector consults. The fix of the second inserts a definition of \<open>import\<close>
  at line 0, so the commented import is line 1 of the result.
\<close>

theorem import_pandas_scan_and_fix:
  "detect_errors_with_context ''import pandas'' (analyze_code_context ''import pandas'') =
     [\<lparr>err_type = ''ModuleNotFoundError'',
       err_message = ''Module 'pandas' might not be installed'',
       err_line = 0, err_column = 0,
       err_prevention = ''Use 'pip install pandas'' @ [CHR 0x27],
       err_fix = Some (AddComment 0 ''import pandas  # Run: pip install pandas'')\<rparr>,
      \<lparr>err_type = ''NameError'',
       err_message = [CHR 0x27] @ ''import' is not defined'',
       err_line = 0, err_column = 0,
       err_prevention = ''Define variable before use'',
       err_fix = Some (DefineVariable 0 ''import'')\<rparr>] \<and>
   apply_smart_fixes ''import pandas''
     (detect_errors_with_context ''import pandas'' (analyze_code_context ''import pandas''))
     (analyze_code_context ''import pandas'') =
     Inr ''import = None  # TODO: Initialize this variable\<newline>import pandas  # Run: pip install pandas''"
  by code_simp

text \<open>
  C1. The lines of diagnostics not yet applied, and of the one being applied, do move.
  For the text \<open>f = open('a.txt')\<close> the scan yields one diagnostic, on line 0; its fix
  first inserts \<open>import os\<close> at line 0 and then wraps line 0, which is now the inserted
  import and not the flagged line.
\<close>

theorem open_fix_wraps_inserted_import:
  "detect_errors_with_context ''f = open('a.txt')'' (analyze_code_context ''f = open('a.txt')'') =
     [\<lparr>err_type = ''FileNotFoundError'',
       err_message = ''File 'a.txt' might not exist'',
       err_line = 0, err_column = 4,
       err_prevention = ''Check file exists before opening'',
       err_fix = Some (SafeFileOpen 0 ''a.txt'')\<rparr>] \<and>
   apply_smart_fixes ''f = open('a.txt')''
     (detect_errors_with_context ''f = open('a.txt')'' (analyze_code_context ''f = open('a.txt')''))
     (analyze_code_context ''f = open('a.txt')'') =
     Inr ''if os.path.exists('a.txt'):\<newline>    import os\<newline>else:\<newline>    print(f'File not found: a.txt')\<newline>f = open('a.txt')''"
  by code_simp

end
